theory Spec2Isabelle
  imports Main
begin

section \<open>Python primitives used by the sources\<close>

text \<open>
  A Python \<open>str\<close> is modelled as a \<open>string\<close>, one \<open>char\<close> standing for one character of
  the Python string, so that \<open>length\<close> is Python's \<open>len\<close>. Python's \<open>int\<close> is \<open>int\<close>;
  its floor division \<open>//\<close> is \<open>div\<close> on \<open>int\<close>, which rounds towards minus infinity too.
\<close>

text \<open>\<open>xs[:k]\<close>: a negative bound counts from the end and is clipped at the start.\<close>

definition slice_to :: "'a list \<Rightarrow> int \<Rightarrow> 'a list" where
  "slice_to xs k = (if k < 0 then take (nat (int (length xs) + k)) xs else take (nat k) xs)"

text \<open>\<open>xs[j:]\<close>: likewise; \<open>xs[-0:]\<close> is \<open>xs[0:]\<close>, the whole list.\<close>

definition slice_from :: "'a list \<Rightarrow> int \<Rightarrow> 'a list" where
  "slice_from xs j = (if j < 0 then drop (nat (int (length xs) + j)) xs else drop (nat j) xs)"

text \<open>The decimal digits an f-string writes for a non-negative integer.\<close>

definition digit_char :: "nat \<Rightarrow> char" where
  "digit_char d = char_of (48 + d)"

function str_of_nat :: "nat \<Rightarrow> string" where
  "str_of_nat n =
     (if n < 10 then [digit_char n] else str_of_nat (n div 10) @ [digit_char (n mod 10)])"
  by pat_completeness auto
termination
  by (relation "measure id") auto

declare str_of_nat.simps [simp del]

text \<open>
  \<open>str.splitlines()\<close>: the text is cut at every line boundary, \<open>\r\n\<close> counting as one, the
  boundaries are dropped, and a boundary at the very end opens no further (empty) line.
  The boundaries are those of Python that a \<open>char\<close> can hold: LF, VT, FF, CR, FS, GS, RS
  and NEL.
\<close>

definition is_line_boundary :: "char \<Rightarrow> bool" where
  "is_line_boundary c =
     (c \<in> set [CHR 0x0A, CHR 0x0B, CHR 0x0C, CHR 0x0D, CHR 0x1C, CHR 0x1D, CHR 0x1E, CHR 0x85])"

fun splitlines_from :: "string \<Rightarrow> string \<Rightarrow> string list" where
  "splitlines_from cur [] = (if cur = [] then [] else [cur])"
| "splitlines_from cur (c # cs) =
     (if c = CHR 0x0D then
        (case cs of
           [] \<Rightarrow> [cur]
         | d # ds \<Rightarrow>
             if d = CHR 0x0A then cur # splitlines_from [] ds
             else cur # splitlines_from [] (d # ds))
      else if is_line_boundary c then cur # splitlines_from [] cs
      else splitlines_from (cur @ [c]) cs)"

definition splitlines :: "string \<Rightarrow> string list" where
  "splitlines s = splitlines_from [] s"

lemma digit_char_inj:
  assumes "a < 10" and "b < 10" and "digit_char a = digit_char b"
  shows "a = b"
proof -
  have "of_char (digit_char a) = (of_char (digit_char b) :: nat)"
    using assms(3) by simp
  then show ?thesis
    using assms(1,2) by (simp add: digit_char_def)
qed

lemma str_of_nat_small: "n < 10 \<Longrightarrow> str_of_nat n = [digit_char n]"
  by (subst str_of_nat.simps) simp

lemma str_of_nat_large:
  "\<not> n < 10 \<Longrightarrow> str_of_nat n = str_of_nat (n div 10) @ [digit_char (n mod 10)]"
  by (subst str_of_nat.simps) simp

lemma str_of_nat_not_Nil: "str_of_nat n \<noteq> []"
  by (subst str_of_nat.simps) simp

lemma str_of_nat_inj: "str_of_nat m = str_of_nat n \<Longrightarrow> m = n"
proof (induction m arbitrary: n rule: str_of_nat.induct)
  case (1 m)
  show ?case
  proof (cases "m < 10")
    case m_small: True
    show ?thesis
    proof (cases "n < 10")
      case True
      with m_small "1.prems" have "digit_char m = digit_char n"
        by (simp add: str_of_nat_small)
      from digit_char_inj[OF m_small True this] show ?thesis .
    next
      case False
      with m_small "1.prems" have "str_of_nat (n div 10) = []"
        by (simp add: str_of_nat_small str_of_nat_large)
      then show ?thesis by (simp add: str_of_nat_not_Nil)
    qed
  next
    case m_large: False
    show ?thesis
    proof (cases "n < 10")
      case True
      with m_large "1.prems" have "str_of_nat (m div 10) = []"
        by (simp add: str_of_nat_small str_of_nat_large)
      then show ?thesis by (simp add: str_of_nat_not_Nil)
    next
      case False
      with m_large "1.prems" have front: "str_of_nat (m div 10) = str_of_nat (n div 10)"
        and units: "digit_char (m mod 10) = digit_char (n mod 10)"
        by (simp_all add: str_of_nat_large)
      from "1.IH"[OF m_large front] have quot: "m div 10 = n div 10" .
      from units have "m mod 10 = n mod 10"
        by (intro digit_char_inj) simp_all
      with quot show ?thesis by (metis div_mult_mod_eq)
    qed
  qed
qed

section \<open>sandbox.py\<close>

record CompletedProcess =
  returncode :: int
  stdout :: string
  stderr :: string

record DockerSandbox =
  container_name :: string

datatype error =
    Exception string
  | FileNotFoundError string
  | AssertionError
  | TypeError
  | BeartypeCallHintParamViolation
  | JSONDecodeError
  | ValueError
  | RecursionError
  | ProcessLookupError

text \<open>
  The container runtime is reached through \<open>asyncio\<close> subprocesses only. What the sandbox
  does to it is the trace of subprocess events it causes; what the runtime answers is a
  parameter of the model: \<open>exits_with\<close> gives the exit code and the two streams (already
  decoded, invalid bytes replaced) of a process started with the given arguments after the
  given trace, \<open>exceeds\<close> says whether \<open>communicate()\<close> on that process is still not done
  when the given number of seconds has passed, and \<open>exited_before_kill\<close> says whether such a
  process has nevertheless exited by the time the handler of the timeout reaches
  \<open>proc.kill()\<close>. Awaited operations of the runtime are taken to complete.
\<close>

datatype event =
    Spawn "string list"
  | Communicate "string list"
  | Kill "string list"
  | Wait "string list"

record runtime =
  exits_with :: "event list \<Rightarrow> string list \<Rightarrow> CompletedProcess"
  exceeds :: "event list \<Rightarrow> string list \<Rightarrow> int \<Rightarrow> bool"
  exited_before_kill :: "event list \<Rightarrow> string list \<Rightarrow> int \<Rightarrow> bool"
  is_dir :: "string \<Rightarrow> bool"

text \<open>\<open>create_subprocess_exec(*args)\<close> followed by \<open>proc.communicate()\<close>.\<close>

definition subprocess_communicate ::
  "runtime \<Rightarrow> string list \<Rightarrow> event list \<Rightarrow> CompletedProcess \<times> event list" where
  "subprocess_communicate rt args tr = (exits_with rt tr args, tr @ [Spawn args, Communicate args])"

definition docker_ps_args :: "string list" where
  "docker_ps_args = [''docker'', ''ps'', ''-a'', ''--format'', ''{{.Names}}'']"

definition candidate_name :: "nat \<Rightarrow> string" where
  "candidate_name i = ''bash-sandbox-instance-'' @ str_of_nat i"

lemma candidate_name_inj: "inj candidate_name"
  by (rule injI) (simp add: candidate_name_def str_of_nat_inj)

lemma finite_candidates_taken: "finite {j. candidate_name j \<in> set existing_containers}"
proof -
  have "finite (candidate_name -` set existing_containers)"
    by (rule finite_vimageI[OF _ candidate_name_inj]) simp
  then show ?thesis by (simp add: vimage_def)
qed

text \<open>
  The loop \<open>for i in count()\<close> of \<open>make_unique_container_name\<close>, entered at index \<open>i\<close>.
  It ends because the listing is finite and distinct indices give distinct names.
\<close>

function first_unused :: "string list \<Rightarrow> nat \<Rightarrow> string" where
  "first_unused existing_containers i =
     (if candidate_name i \<notin> set existing_containers then candidate_name i
      else first_unused existing_containers (Suc i))"
  by pat_completeness auto
termination
proof (relation "measure (\<lambda>(existing, i). card {j. i \<le> j \<and> candidate_name j \<in> set existing})")
  show "wf (measure (\<lambda>(existing, i). card {j. i \<le> j \<and> candidate_name j \<in> set existing}))"
    by simp
next
  fix existing_containers :: "string list" and i :: nat
  assume "\<not> candidate_name i \<notin> set existing_containers"
  then have taken: "candidate_name i \<in> set existing_containers" by simp
  let ?here = "{j. i \<le> j \<and> candidate_name j \<in> set existing_containers}"
  let ?next = "{j. Suc i \<le> j \<and> candidate_name j \<in> set existing_containers}"
  have fin: "finite ?here"
    using finite_candidates_taken[of existing_containers] by (rule rev_finite_subset) auto
  have "?next \<subseteq> ?here" by auto
  moreover have "i \<in> ?here" using taken by simp
  moreover have "i \<notin> ?next" by simp
  ultimately have "?next \<subset> ?here" by blast
  then have "card ?next < card ?here"
    using fin by (rule psubset_card_mono[rotated])
  then show "((existing_containers, Suc i), (existing_containers, i))
      \<in> measure (\<lambda>(existing, i). card {j. i \<le> j \<and> candidate_name j \<in> set existing})"
    by simp
qed

declare first_unused.simps [simp del]

definition make_unique_container_name ::
  "runtime \<Rightarrow> event list \<Rightarrow> (error + string) \<times> event list" where
  "make_unique_container_name rt tr =
     (let (proc, tr') = subprocess_communicate rt docker_ps_args tr
      in if returncode proc \<noteq> 0
         then (Inl (Exception (''Error getting existing containers: '' @ stderr proc)), tr')
         else (let existing_containers = splitlines (stdout proc)
               in (Inr (first_unused existing_containers 0), tr')))"

definition docker_build_args :: "string list" where
  "docker_build_args = [''docker'', ''build'', ''-t'', ''bash-sandbox'', ''sandbox'']"

definition build_image :: "runtime \<Rightarrow> event list \<Rightarrow> (error + unit) \<times> event list" where
  "build_image rt tr =
     (if \<not> is_dir rt ''sandbox''
      then (Inl (FileNotFoundError ''Sandbox directory 'sandbox' not found.''), tr)
      else (let (proc, tr') = subprocess_communicate rt docker_build_args tr
            in if returncode proc \<noteq> 0
               then (Inl (Exception (''Error building image: '' @ stderr proc)), tr')
               else (Inr (), tr')))"

definition docker_run_args :: "string \<Rightarrow> string list" where
  "docker_run_args name =
     [''docker'', ''run'', ''-d'', ''--name'', name, ''--tty'', ''bash-sandbox'',
      ''/bin/sh'', ''-c'', ''while true; do sleep 1; done'']"

definition start_container ::
  "runtime \<Rightarrow> DockerSandbox \<Rightarrow> event list \<Rightarrow> (error + unit) \<times> event list" where
  "start_container rt self tr =
     (let (proc, tr') = subprocess_communicate rt (docker_run_args (container_name self)) tr
      in if returncode proc \<noteq> 0
         then (Inl (Exception (''Error starting container: '' @ stderr proc)), tr')
         else (Inr (), tr'))"

text \<open>
  \<open>__aenter__\<close>. The three steps run under \<open>_container_creation_lock\<close>; in this sequential
  model of one caller the lock changes nothing. An exception leaves the \<open>async with\<close> block
  at once, so the later steps do not run.
\<close>

definition aenter ::
  "runtime \<Rightarrow> DockerSandbox \<Rightarrow> event list \<Rightarrow> (error + unit) \<times> DockerSandbox \<times> event list" where
  "aenter rt self tr =
     (case make_unique_container_name rt tr of
        (Inl e, tr1) \<Rightarrow> (Inl e, self, tr1)
      | (Inr name, tr1) \<Rightarrow>
          (let self1 = self\<lparr>container_name := name\<rparr>
           in case build_image rt tr1 of
                (Inl e, tr2) \<Rightarrow> (Inl e, self1, tr2)
              | (Inr _, tr2) \<Rightarrow>
                  (case start_container rt self1 tr2 of
                     (Inl e, tr3) \<Rightarrow> (Inl e, self1, tr3)
                   | (Inr _, tr3) \<Rightarrow> (Inr (), self1, tr3))))"

definition docker_exec_args :: "DockerSandbox \<Rightarrow> string \<Rightarrow> string list" where
  "docker_exec_args self command =
     [''docker'', ''exec'', container_name self, ''/bin/bash'', ''-c'', command]"

text \<open>
  \<open>run_command\<close>. \<open>asyncio.wait_for(proc.communicate(), timeout_seconds)\<close> raises
  \<open>asyncio.TimeoutError\<close> when the timeout passes first. The handler calls \<open>proc.kill()\<close>
  unguarded: when the child has exited in the meantime, asyncio raises \<open>ProcessLookupError\<close>
  there and the exception leaves \<open>run_command\<close>; otherwise the process is killed and waited
  for, and the synthetic result is returned.
\<close>

definition run_command ::
  "runtime \<Rightarrow> DockerSandbox \<Rightarrow> string \<Rightarrow> int \<Rightarrow> event list \<Rightarrow>
   (error + CompletedProcess) \<times> event list" where
  "run_command rt self command timeout_seconds tr =
     (let args = docker_exec_args self command
      in if exceeds rt tr args timeout_seconds
         then (if exited_before_kill rt tr args timeout_seconds
               then (Inl ProcessLookupError, tr @ [Spawn args])
               else (Inr \<lparr>returncode = 1, stdout = [], stderr = ''Timed out.''\<rparr>,
                     tr @ [Spawn args, Kill args, Wait args]))
         else (let proc = exits_with rt tr args
               in (Inr \<lparr>returncode = returncode proc, stdout = stdout proc, stderr = stderr proc\<rparr>,
                   tr @ [Spawn args, Communicate args])))"

subsection \<open>Sandboxes opened concurrently\<close>

text \<open>
  Where a coroutine stands in \<open>async with DockerSandbox() as sandbox\<close>: before
  \<open>__aenter__\<close>; inside \<open>_container_creation_lock\<close> before the listing, with the name
  reserved, with the image built; past \<open>__aenter__\<close> with its container running; after
  \<open>cleanup\<close>; or left by an exception of one of the three steps.
\<close>

datatype phase = Idle | Locked | Named string | Built string | Opened string | Closed | Failed

text \<open>
  What the coroutines share: the lock, and the names of the containers the runtime knows
  (those there at the start and those started since, until they are removed). Only the
  sandboxes of this process change them.
\<close>

record registry =
  lock_holder :: "nat option"
  containers :: "string list"
  phase_of :: "nat \<Rightarrow> phase"











section \<open>agent.py\<close>

subsection \<open>The json module\<close>

text \<open>
  The values \<open>json.loads\<close> can produce (floats apart, which no tool of the repository
  takes). A \<open>dict\<close> is the list of its items in insertion order. The parser and the
  serialiser themselves are library code: they are parameters. \<open>loads\<close> gives the value
  parsed or the exception \<open>json.loads\<close> raises: \<open>JSONDecodeError\<close> for a text that is not
  JSON, but also \<open>ValueError\<close> (an integer literal beyond the limit of digits) and
  \<open>RecursionError\<close> (nesting too deep).
\<close>

datatype pyvalue =
    PNone
  | PBool bool
  | PInt int
  | PStr string
  | PList "pyvalue list"
  | PDict "(string \<times> pyvalue) list"

record json_module =
  loads :: "string \<Rightarrow> error + pyvalue"
  dumps :: "pyvalue \<Rightarrow> string"

subsection \<open>Tool\<close>

text \<open>
  A tool, as \<open>Tool.call\<close> and \<open>Agent.run\<close> see it: the name in its description for the
  model service, whether it is an instance of \<open>FinishTool\<close>, the parameters of
  \<open>signature(self._call)\<close> in order, each with whether it has a default, and the method
  \<open>_call\<close> itself, which takes the keyword arguments, acts on the world \<open>'w\<close> and returns a
  \<open>str\<close> or \<open>None\<close> (the return type \<open>call\<close> declares) or raises.
\<close>

record 'w Tool =
  function_name :: string
  isinstance_FinishTool :: bool
  signature_parameters :: "(string \<times> bool) list"
  private_call :: "(string \<times> pyvalue) list \<Rightarrow> 'w \<Rightarrow> (error + string option) \<times> 'w"

definition required_arguments :: "'w Tool \<Rightarrow> string list" where
  "required_arguments self =
     map fst (filter (\<lambda>(arg, has_default). \<not> has_default) (signature_parameters self))"

definition optional_arguments :: "'w Tool \<Rightarrow> string list" where
  "optional_arguments self =
     map fst (filter (\<lambda>(arg, has_default). has_default) (signature_parameters self))"

definition call ::
  "json_module \<Rightarrow> 'w Tool \<Rightarrow> string \<Rightarrow> 'w \<Rightarrow> (error + string option) \<times> 'w" where
  "call js self json_arguments w =
     (case loads js json_arguments of
        Inl e \<Rightarrow> if e = JSONDecodeError then (Inr None, w) else (Inl e, w)
      | Inr (PDict arguments) \<Rightarrow>
          if \<not> (set (required_arguments self) \<subseteq> set (map fst arguments)) then (Inr None, w)
          else if \<not> (set (map fst arguments)
                        \<subseteq> set (required_arguments self) \<union> set (optional_arguments self))
          then (Inr None, w)
          else private_call self arguments w
      | Inr _ \<Rightarrow> (Inr None, w))"

text \<open>
  To observe invocations, a tool can be wrapped so that its action records the keyword
  arguments of every invocation in a log carried beside the world.
\<close>

definition recording :: "'w Tool \<Rightarrow> ('w \<times> (string \<times> pyvalue) list list) Tool" where
  "recording self =
     \<lparr>function_name = function_name self,
      isinstance_FinishTool = isinstance_FinishTool self,
      signature_parameters = signature_parameters self,
      private_call = (\<lambda>kwargs (w, log).
        (fst (private_call self kwargs w), (snd (private_call self kwargs w), log @ [kwargs])))\<rparr>"

subsection \<open>FinishTool and BashTool\<close>

definition FinishTool :: "'w Tool" where
  "FinishTool =
     \<lparr>function_name = ''finish'',
      isinstance_FinishTool = True,
      signature_parameters = [],
      private_call = (\<lambda>kwargs w. if kwargs = [] then (Inr None, w) else (Inl TypeError, w))\<rparr>"

record BashTool =
  sandbox :: DockerSandbox
  verbose :: bool
  max_output_length :: int

text \<open>
  \<open>_truncate\<close>. In \<open>text[-self.max_output_length // 2 :]\<close> the unary minus binds tighter
  than \<open>//\<close>: the lower bound of the slice is \<open>(- max_output_length) // 2\<close>.
\<close>

definition BashTool_truncate :: "BashTool \<Rightarrow> string \<Rightarrow> string" where
  "BashTool_truncate self text =
     (if int (length text) \<le> max_output_length self then text
      else slice_to text (max_output_length self div 2)
           @ ''[TRUNCATED]''
           @ slice_from text ((- max_output_length self) div 2))"

text \<open>
  The truncation as the spec words it, to compare the code with: when the text is longer
  than the bound, a prefix and a suffix whose lengths add up to the bound are kept, each
  taken by its length, with the marker between them.
\<close>

definition keep_prefix_and_suffix :: "nat \<Rightarrow> string \<Rightarrow> string" where
  "keep_prefix_and_suffix bound text =
     (if length text \<le> bound then text
      else take (bound div 2) text
           @ ''[TRUNCATED]''
           @ drop (length text - (bound - bound div 2)) text)"

text \<open>
  \<open>BashTool._call(self, command: str)\<close>; the class is decorated with \<open>@beartype\<close>, which
  rejects a \<open>command\<close> that is not a \<open>str\<close>. What \<open>verbose\<close> prints is not modelled.
\<close>

definition BashTool_call ::
  "json_module \<Rightarrow> runtime \<Rightarrow> BashTool \<Rightarrow> (string \<times> pyvalue) list \<Rightarrow> event list \<Rightarrow>
   (error + string option) \<times> event list" where
  "BashTool_call js rt self kwargs tr =
     (if \<not> (set (map fst kwargs) \<subseteq> {''command''}) then (Inl TypeError, tr)
      else case map_of kwargs ''command'' of
             None \<Rightarrow> (Inl TypeError, tr)
           | Some (PStr command) \<Rightarrow>
               (case run_command rt (sandbox self) command 30 tr of
                  (Inl e, tr') \<Rightarrow> (Inl e, tr')
                | (Inr result, tr') \<Rightarrow>
                    (Inr (Some (dumps js (PDict
                       [(''exit_code'', PInt (returncode result)),
                        (''stdout'', PStr (BashTool_truncate self (stdout result))),
                        (''stderr'', PStr (BashTool_truncate self (stderr result)))]))), tr'))
           | Some _ \<Rightarrow> (Inl BeartypeCallHintParamViolation, tr))"

definition BashTool_as_Tool :: "json_module \<Rightarrow> runtime \<Rightarrow> BashTool \<Rightarrow> (event list) Tool" where
  "BashTool_as_Tool js rt self =
     \<lparr>function_name = ''run_bash_command'',
      isinstance_FinishTool = False,
      signature_parameters = [(''command'', False)],
      private_call = BashTool_call js rt self\<rparr>"

subsection \<open>Agent\<close>

record tool_call =
  tool_call_id :: string
  tool_call_name :: string
  tool_call_arguments :: string

record ChatCompletionMessage =
  content :: "string option"
  tool_calls :: "tool_call list option"

datatype role = User | System | Assistant | ToolRole

text \<open>
  A message of the conversation: a dict with a role, a content and, for a tool result, the
  id of the tool call it answers; or the model's response object as it was received.
\<close>

datatype message =
    Dict role string "string option"
  | Response ChatCompletionMessage

text \<open>
  The fields \<open>model\<close> and \<open>openai_client\<close> serve \<open>_chatbot_response\<close> only; the model
  service is the function \<open>chatbot_response\<close> from the conversation sent to the message
  received.
\<close>

record 'w Agent =
  chatbot_response :: "message list \<Rightarrow> ChatCompletionMessage"
  tools :: "'w Tool list"
  max_turns :: int
  system_message :: "string option"

definition default_system_message :: string where
  "default_system_message = ''You are an agent that can call tools to complete a task. You are very thorough and do never give up. If something doesn't work, you make the changes that make are most likely to make it work and keep trying until it works. There is no human in the loop, so you cannot ask for help or ask for clarification. Before you call the finish tool, you must checked whether you have completed the task successfully. If it turns out that what you did failed complete the task, you should retry completing the task and not call the finish tool. When you are sure that you have completed the task successfully, call the finish tool.''"

definition post_init :: "'w Agent \<Rightarrow> 'w Agent" where
  "post_init self =
     (if \<not> list_ex isinstance_FinishTool (tools self)
      then self\<lparr>tools := tools self @ [FinishTool]\<rparr>
      else self)"

text \<open>
  The inner loop of \<open>run\<close> over \<open>response.tool_calls\<close>. It returns \<open>finished\<close>, the
  conversation and the world; a failed \<open>assert\<close> or an exception of the tool ends it.
\<close>

fun process_tool_calls ::
  "json_module \<Rightarrow> 'w Tool list \<Rightarrow> tool_call list \<Rightarrow> message list \<Rightarrow> 'w \<Rightarrow>
   (error + bool) \<times> message list \<times> 'w" where
  "process_tool_calls js ts [] conversation w = (Inr False, conversation, w)"
| "process_tool_calls js ts (tc # rest) conversation w =
     (case find (\<lambda>t. function_name t = tool_call_name tc) ts of
        None \<Rightarrow> (Inl AssertionError, conversation, w)
      | Some t \<Rightarrow>
          if isinstance_FinishTool t then (Inr True, conversation, w)
          else (case call js t (tool_call_arguments tc) w of
                  (Inl e, w') \<Rightarrow> (Inl e, conversation, w')
                | (Inr returned, w') \<Rightarrow>
                    process_tool_calls js ts rest
                      (conversation @
                         [Dict ToolRole
                            (dumps js (case returned of None \<Rightarrow> PNone | Some s \<Rightarrow> PStr s))
                            (Some (tool_call_id tc))])
                      w'))"

text \<open>The loop \<open>for _ in range(self.max_turns)\<close>, with \<open>n\<close> turns left.\<close>

fun turns ::
  "json_module \<Rightarrow> 'w Agent \<Rightarrow> nat \<Rightarrow> message list \<Rightarrow> 'w \<Rightarrow>
   (error + unit) \<times> message list \<times> 'w" where
  "turns js self 0 conversation w = (Inr (), conversation, w)"
| "turns js self (Suc n) conversation w =
     (let response = chatbot_response self conversation;
          conversation1 = conversation @ [Response response]
      in case tool_calls response of
           None \<Rightarrow>
             (case content response of
                None \<Rightarrow> (Inl AssertionError, conversation1, w)
              | Some c \<Rightarrow>
                  turns js self n
                    (conversation1 @
                       [Dict Assistant c None,
                        Dict User ''You should call tools instead of giving chat responses.'' None])
                    w)
         | Some tcs \<Rightarrow>
             (case process_tool_calls js (tools self) tcs conversation1 w of
                (Inl e, conversation2, w') \<Rightarrow> (Inl e, conversation2, w')
              | (Inr finished, conversation2, w') \<Rightarrow>
                  if finished then (Inr (), conversation2, w')
                  else turns js self n conversation2 w'))"

definition seed_conversation :: "'w Agent \<Rightarrow> string \<Rightarrow> message list" where
  "seed_conversation self prompt =
     (let conversation = [Dict User prompt None]
      in case system_message self of
           None \<Rightarrow> conversation
         | Some s \<Rightarrow> conversation @ [Dict System s None])"

definition run ::
  "json_module \<Rightarrow> 'w Agent \<Rightarrow> string \<Rightarrow> 'w \<Rightarrow> (error + unit) \<times> message list \<times> 'w" where
  "run js self prompt w =
     turns js self (nat (max_turns self)) (seed_conversation self prompt) w"

section \<open>evaluate.py and main.py\<close>

text \<open>
  \<open>evaluate_agent_multiple_tasks(tasks, model, max_turns, max_run_in_parallel = 64)\<close>
  creates \<open>asyncio.Semaphore(max_run_in_parallel)\<close>; an argument left out is \<open>None\<close> here.
  \<open>main\<close> passes \<open>max_run_in_parallel=256\<close>.
\<close>

definition max_run_in_parallel :: "int option \<Rightarrow> int" where
  "max_run_in_parallel given = (case given of None \<Rightarrow> 64 | Some n \<Rightarrow> n)"

definition main_max_run_in_parallel :: "int option" where
  "main_max_run_in_parallel = Some 256"

text \<open>
  The state of the gathered \<open>evaluate_one\<close> coroutines: the value of the semaphore, and how
  many coroutines have not yet entered \<open>async with semaphore\<close>, are inside it (running
  \<open>evaluate_agent\<close>), and have left it.
\<close>

record fanout =
  semaphore :: int
  pending :: nat
  running :: nat
  finished :: nat

definition evaluate_agent_multiple_tasks :: "'t list \<Rightarrow> int option \<Rightarrow> fanout" where
  "evaluate_agent_multiple_tasks tasks given =
     \<lparr>semaphore = max_run_in_parallel given, pending = length tasks, running = 0, finished = 0\<rparr>"

text \<open>
  A coroutine enters the block when the semaphore's value is positive, taking one from it,
  and gives it back when it leaves.
\<close>

inductive step :: "fanout \<Rightarrow> fanout \<Rightarrow> bool" where
  acquire: "0 < semaphore s \<Longrightarrow> 0 < pending s \<Longrightarrow>
     step s (s\<lparr>semaphore := semaphore s - 1, pending := pending s - 1, running := running s + 1\<rparr>)"
| release: "0 < running s \<Longrightarrow>
     step s (s\<lparr>semaphore := semaphore s + 1, running := running s - 1, finished := finished s + 1\<rparr>)"

section \<open>Concrete inputs\<close>

text \<open>
  The objects the examples below are evaluated on. \<open>json_examples\<close> stands for the json
  module on the few texts that occur in them: it parses three payloads, raises
  \<open>RecursionError\<close> on a thousand opening brackets as \<open>json.loads\<close> does, and rejects every
  other text; and it writes \<open>None\<close> and strings that need no escaping; what it writes for
  any other value is left empty and is never looked at.
\<close>

definition quoted :: "string \<Rightarrow> string" where
  "quoted s = [CHR 0x22] @ s @ [CHR 0x22]"

definition echo_payload :: string where
  "echo_payload = ''{'' @ quoted ''command'' @ '': '' @ quoted ''echo hi'' @ ''}''"

definition deep_brackets :: string where
  "deep_brackets = replicate 1000 (CHR ''['')"

definition json_examples :: json_module where
  "json_examples =
     \<lparr>loads = (\<lambda>s. if s = echo_payload then Inr (PDict [(''command'', PStr ''echo hi'')])
                  else if s = ''{}'' then Inr (PDict [])
                  else if s = ''[]'' then Inr (PList [])
                  else if s = deep_brackets then Inl RecursionError
                  else Inl JSONDecodeError),
      dumps = (\<lambda>v. case v of PNone \<Rightarrow> ''null'' | PStr s \<Rightarrow> quoted s | _ \<Rightarrow> [])\<rparr>"

definition sandbox0 :: DockerSandbox where
  "sandbox0 = \<lparr>container_name = ''bash-sandbox-instance-0''\<rparr>"

definition runtime_echo :: runtime where
  "runtime_echo =
     \<lparr>exits_with = (\<lambda>tr args. \<lparr>returncode = 0, stdout = ''hi'' @ [CHR 0x0A], stderr = []\<rparr>),
      exceeds = (\<lambda>tr args seconds. False),
      exited_before_kill = (\<lambda>tr args seconds. False),
      is_dir = (\<lambda>path. True)\<rparr>"

definition runtime_slow :: runtime where
  "runtime_slow =
     \<lparr>exits_with = (\<lambda>tr args. \<lparr>returncode = 0, stdout = [], stderr = []\<rparr>),
      exceeds = (\<lambda>tr args seconds. True),
      exited_before_kill = (\<lambda>tr args seconds. False),
      is_dir = (\<lambda>path. True)\<rparr>"

definition runtime_race :: runtime where
  "runtime_race =
     \<lparr>exits_with = (\<lambda>tr args. \<lparr>returncode = 0, stdout = [], stderr = []\<rparr>),
      exceeds = (\<lambda>tr args seconds. True),
      exited_before_kill = (\<lambda>tr args seconds. True),
      is_dir = (\<lambda>path. True)\<rparr>"

definition runtime_listing :: runtime where
  "runtime_listing =
     \<lparr>exits_with = (\<lambda>tr args.
        \<lparr>returncode = 0,
         stdout = ''bash-sandbox-instance-0'' @ [CHR 0x0A] @ ''web'' @ [CHR 0x0A]
                  @ ''bash-sandbox-instance-2'' @ [CHR 0x0A],
         stderr = []\<rparr>),
      exceeds = (\<lambda>tr args seconds. False),
      exited_before_kill = (\<lambda>tr args seconds. False),
      is_dir = (\<lambda>path. True)\<rparr>"

definition runtime_down :: runtime where
  "runtime_down =
     \<lparr>exits_with = (\<lambda>tr args. \<lparr>returncode = 1, stdout = [], stderr = ''Cannot connect to the Docker daemon''\<rparr>),
      exceeds = (\<lambda>tr args seconds. False),
      exited_before_kill = (\<lambda>tr args seconds. False),
      is_dir = (\<lambda>path. True)\<rparr>"

definition bt0 :: BashTool where
  "bt0 = \<lparr>sandbox = \<lparr>container_name = ''bash-sandbox-instance-0''\<rparr>, verbose = False, max_output_length = 0\<rparr>"

definition bash_tool :: "(event list) Tool" where
  "bash_tool = BashTool_as_Tool json_examples runtime_echo
     \<lparr>sandbox = sandbox0, verbose = False, max_output_length = 1024\<rparr>"

definition echo_result :: string where
  "echo_result = dumps json_examples (PDict
     [(''exit_code'', PInt 0), (''stdout'', PStr (''hi'' @ [CHR 0x0A])), (''stderr'', PStr [])])"

definition echo_args :: "string list" where
  "echo_args = [''docker'', ''exec'', ''bash-sandbox-instance-0'', ''/bin/bash'', ''-c'', ''echo hi'']"

definition finish_then_bash :: ChatCompletionMessage where
  "finish_then_bash =
     \<lparr>content = None,
      tool_calls = Some
        [\<lparr>tool_call_id = ''call_1'', tool_call_name = ''finish'', tool_call_arguments = ''{}''\<rparr>,
         \<lparr>tool_call_id = ''call_2'', tool_call_name = ''run_bash_command'',
          tool_call_arguments = echo_payload\<rparr>]\<rparr>"

definition agent_finish_first :: "(event list) Agent" where
  "agent_finish_first = post_init
     \<lparr>chatbot_response = (\<lambda>conversation. finish_then_bash),
      tools = [bash_tool],
      max_turns = 15,
      system_message = Some default_system_message\<rparr>"

definition plain_reply :: ChatCompletionMessage where
  "plain_reply = \<lparr>content = Some ''I am done.'', tool_calls = None\<rparr>"

definition agent_chatty :: "(event list) Agent" where
  "agent_chatty = post_init
     \<lparr>chatbot_response = (\<lambda>conversation. plain_reply),
      tools = [bash_tool],
      max_turns = 15,
      system_message = Some default_system_message\<rparr>"

definition after_one_acquire :: fanout where
  "after_one_acquire = \<lparr>semaphore = 63, pending = 1, running = 1, finished = 0\<rparr>"


section \<open>BashTool._truncate\<close>

lemma truncate_long:
  assumes pos: "0 < max_output_length self" and long: "max_output_length self < int (length text)"
  shows "BashTool_truncate self text =
           take (nat (max_output_length self div 2)) text @ ''[TRUNCATED]''
           @ drop (length text - nat (- ((- max_output_length self) div 2))) text"
proof -
  let ?n = "max_output_length self"
  have neg: "(- ?n) div 2 < 0" using pos by linarith
  have nonneg: "\<not> ?n div 2 < 0" using pos by linarith
  have "nat (int (length text) + (- ?n) div 2) = length text - nat (- ((- ?n) div 2))"
    using neg by linarith
  then show ?thesis
    using long neg nonneg by (simp add: BashTool_truncate_def slice_to_def slice_from_def)
qed

lemma halves: "0 < (n::int) \<Longrightarrow> nat (n div 2) + nat (- ((- n) div 2)) = nat n"
  by linarith

lemma truncate_long_length:
  assumes pos: "0 < max_output_length self" and long: "max_output_length self < int (length text)"
  shows "length (BashTool_truncate self text) = nat (max_output_length self) + 11"
proof -
  let ?n = "max_output_length self"
  let ?p = "nat (?n div 2)" and ?q = "nat (- ((- ?n) div 2))"
  have pq: "?p + ?q = nat ?n" using pos by (rule halves)
  have len: "nat ?n < length text" using long pos by linarith
  have lenA: "length (take ?p text) = ?p" using pq len by simp
  have lenB: "length (drop (length text - ?q) text) = ?q" using pq len by simp
  have "length (BashTool_truncate self text) = ?p + (11 + ?q)"
    unfolding truncate_long[OF pos long] length_append lenA lenB by simp
  then show ?thesis using pq by linarith
qed

lemma take_prefix: "length A = p \<Longrightarrow> take p (A @ X) = A"
  by simp

lemma drop_prefix: "k = length (A @ M) \<Longrightarrow> drop k (A @ M @ B) = B"
  by simp

text \<open>
  What holds of the claim C6: for every string and every truncation bound of at least 1,
  truncating twice with the same bound gives the same string as truncating once, and the
  length of the truncated output is at most the bound plus the length of the marker.
\<close>

lemma truncate_idempotent_for_positive_bound:
  assumes pos: "0 < max_output_length self"
  shows "BashTool_truncate self (BashTool_truncate self text) = BashTool_truncate self text
       \<and> int (length (BashTool_truncate self text)) \<le> max_output_length self + int (length ''[TRUNCATED]'')"
proof (cases "int (length text) \<le> max_output_length self")
  case True
  then have "BashTool_truncate self text = text" by (simp add: BashTool_truncate_def)
  with True show ?thesis by simp
next
  case False
  then have long: "max_output_length self < int (length text)" by simp
  let ?n = "max_output_length self"
  let ?p = "nat (?n div 2)" and ?q = "nat (- ((- ?n) div 2))"
  let ?A = "take ?p text" and ?B = "drop (length text - ?q) text"
  let ?t = "BashTool_truncate self text"
  have pq: "?p + ?q = nat ?n" using pos by (rule halves)
  have len: "nat ?n < length text" using long pos by linarith
  have t: "?t = ?A @ ''[TRUNCATED]'' @ ?B" by (rule truncate_long[OF pos long])
  have lenA: "length ?A = ?p" using pq len by simp
  have lent: "length ?t = nat ?n + 11" by (rule truncate_long_length[OF pos long])
  then have long': "?n < int (length ?t)" using pos by linarith
  have again: "BashTool_truncate self ?t = take ?p ?t @ ''[TRUNCATED]'' @ drop (length ?t - ?q) ?t"
    by (rule truncate_long[OF pos long'])
  have front: "take ?p ?t = ?A"
    unfolding t using lenA by (rule take_prefix)
  have "length (?A @ ''[TRUNCATED]'') = ?p + 11"
    unfolding length_append lenA by simp
  then have "length ?t - ?q = length (?A @ ''[TRUNCATED]'')"
    using lent pq by linarith
  then have "drop (length ?t - ?q) (?A @ ''[TRUNCATED]'' @ ?B) = ?B"
    by (rule drop_prefix)
  then have rear: "drop (length ?t - ?q) ?t = ?B"
    using t by simp
  have "BashTool_truncate self ?t = ?t"
    unfolding again front rear using t by simp
  moreover have "int (length ?t) \<le> ?n + int (length ''[TRUNCATED]'')"
    using lent pos by simp
  ultimately show ?thesis by simp
qed

lemma truncate_idempotent_for_positive_bound_example:
  "0 < max_output_length (bt0\<lparr>max_output_length := 5\<rparr>)
   \<and> BashTool_truncate (bt0\<lparr>max_output_length := 5\<rparr>) ''abcdefgh'' = ''ab[TRUNCATED]fgh''
   \<and> BashTool_truncate (bt0\<lparr>max_output_length := 5\<rparr>) ''ab[TRUNCATED]fgh'' = ''ab[TRUNCATED]fgh''
   \<and> int (length (BashTool_truncate (bt0\<lparr>max_output_length := 5\<rparr>) ''abcdefgh'')) \<le> 5 + 11"
  using truncate_idempotent_for_positive_bound[of "bt0\<lparr>max_output_length := 5\<rparr>" "''abcdefgh''"]
  by (simp add: bt0_def BashTool_truncate_def slice_to_def slice_from_def)

text \<open>
  For every bound of at least 1 the code is the truncation the spec words; that
  truncation satisfies the claim at bound 0 too.
\<close>

lemma BashTool_truncate_keeps_prefix_and_suffix:
  assumes pos: "0 < max_output_length self"
  shows "BashTool_truncate self text = keep_prefix_and_suffix (nat (max_output_length self)) text"
proof (cases "int (length text) \<le> max_output_length self")
  case True
  then have "length text \<le> nat (max_output_length self)" by linarith
  with True show ?thesis
    by (simp add: BashTool_truncate_def keep_prefix_and_suffix_def)
next
  case False
  then have long: "max_output_length self < int (length text)" by simp
  let ?n = "max_output_length self"
  have front: "nat (?n div 2) = nat ?n div 2"
    using pos by (simp add: nat_div_distrib)
  have rear: "nat (- ((- ?n) div 2)) = nat ?n - nat ?n div 2"
    using pos by (simp add: nat_div_distrib[symmetric])
  have "\<not> length text \<le> nat ?n" using long pos by linarith
  then show ?thesis
    unfolding truncate_long[OF pos long] front rear
    by (simp add: keep_prefix_and_suffix_def)
qed

lemma keep_prefix_and_suffix_at_zero:
  "keep_prefix_and_suffix 0 (keep_prefix_and_suffix 0 text) = keep_prefix_and_suffix 0 text
   \<and> length (keep_prefix_and_suffix 0 text) \<le> 0 + length ''[TRUNCATED]''"
  by (simp add: keep_prefix_and_suffix_def)

text \<open>
  C6 fails on the code at bound 0. The suffix kept is \<open>text[-0:]\<close>, which is not the last 0
  characters but the whole text: the output of \<open>"a"\<close> is the marker followed by \<open>"a"\<close>, one
  character longer than the bound plus the marker, and truncating it again adds a second
  marker.
\<close>

theorem truncate_at_bound_zero:
  "BashTool_truncate bt0 ''a'' = ''[TRUNCATED]a''
   \<and> BashTool_truncate bt0 (BashTool_truncate bt0 ''a'') \<noteq> BashTool_truncate bt0 ''a''
   \<and> \<not> int (length (BashTool_truncate bt0 ''a'')) \<le> max_output_length bt0 + int (length ''[TRUNCATED]'')"
  by (simp add: bt0_def BashTool_truncate_def slice_to_def slice_from_def)

section \<open>DockerSandbox\<close>

lemma run_command_timeout_killed:
  assumes "exceeds rt tr (docker_exec_args self command) timeout_seconds"
      and "\<not> exited_before_kill rt tr (docker_exec_args self command) timeout_seconds"
  shows "run_command rt self command timeout_seconds tr =
           (Inr \<lparr>returncode = 1, stdout = [], stderr = ''Timed out.''\<rparr>,
            tr @ [Spawn (docker_exec_args self command),
                  Kill (docker_exec_args self command),
                  Wait (docker_exec_args self command)])"
  using assms by (simp add: run_command_def Let_def)

lemma run_command_timeout_killed_example:
  "exceeds runtime_slow [] (docker_exec_args sandbox0 ''sleep 60'') 30
   \<and> run_command runtime_slow sandbox0 ''sleep 60'' 30 [] =
       (Inr \<lparr>returncode = 1, stdout = [], stderr = ''Timed out.''\<rparr>,
        [Spawn [''docker'', ''exec'', ''bash-sandbox-instance-0'', ''/bin/bash'', ''-c'', ''sleep 60''],
         Kill [''docker'', ''exec'', ''bash-sandbox-instance-0'', ''/bin/bash'', ''-c'', ''sleep 60''],
         Wait [''docker'', ''exec'', ''bash-sandbox-instance-0'', ''/bin/bash'', ''-c'', ''sleep 60'']])"
proof -
  have h: "exceeds runtime_slow [] (docker_exec_args sandbox0 ''sleep 60'') 30"
    by (simp add: runtime_slow_def)
  have alive: "\<not> exited_before_kill runtime_slow [] (docker_exec_args sandbox0 ''sleep 60'') 30"
    by (simp add: runtime_slow_def)
  from run_command_timeout_killed[OF h alive] h show ?thesis
    by (simp add: docker_exec_args_def sandbox0_def)
qed

text \<open>
  C7 fails on the code. The command exceeds the timeout, so \<open>wait_for\<close> raises
  \<open>TimeoutError\<close>, but the child exits before the handler reaches \<open>proc.kill()\<close>: the call
  raises \<open>ProcessLookupError\<close> out of \<open>run_command\<close>, no synthetic result is returned, and the
  process is neither killed nor waited for. When the child is still running at that point
  the claim holds (\<open>run_command_timeout_killed\<close>).
\<close>

theorem run_command_timeout_kill_raises:
  "exceeds runtime_race [] (docker_exec_args sandbox0 ''sleep 30'') 30
   \<and> run_command runtime_race sandbox0 ''sleep 30'' 30 [] =
       (Inl ProcessLookupError,
        [Spawn [''docker'', ''exec'', ''bash-sandbox-instance-0'', ''/bin/bash'', ''-c'', ''sleep 30'']])"
  by (simp add: run_command_def runtime_race_def docker_exec_args_def sandbox0_def Let_def)

lemma first_unused_lowest:
  "\<exists>k\<ge>i. first_unused existing i = candidate_name k
      \<and> candidate_name k \<notin> set existing
      \<and> (\<forall>j. i \<le> j \<and> j < k \<longrightarrow> candidate_name j \<in> set existing)"
proof (induction existing i rule: first_unused.induct)
  case (1 existing i)
  show ?case
  proof (cases "candidate_name i \<notin> set existing")
    case True
    then have "first_unused existing i = candidate_name i"
      by (subst first_unused.simps) simp
    with True show ?thesis by (intro exI[of _ i]) auto
  next
    case False
    then have eq: "first_unused existing i = first_unused existing (Suc i)"
      by (subst first_unused.simps) simp
    from "1.IH"[OF False] obtain k where k: "Suc i \<le> k"
      "first_unused existing (Suc i) = candidate_name k"
      "candidate_name k \<notin> set existing"
      "\<forall>j. Suc i \<le> j \<and> j < k \<longrightarrow> candidate_name j \<in> set existing"
      by blast
    have "\<forall>j. i \<le> j \<and> j < k \<longrightarrow> candidate_name j \<in> set existing"
    proof (intro allI impI)
      fix j assume "i \<le> j \<and> j < k"
      then show "candidate_name j \<in> set existing"
        using k(4) False by (cases "j = i") auto
    qed
    with k eq show ?thesis by (intro exI[of _ k]) simp
  qed
qed

text \<open>
  C8. When the listing command exits with status 0, the name reserved is
  \<open>bash-sandbox-instance-i\<close> for the lowest \<open>i\<close> whose name is not a line of the listing.
  When it exits with another status, the reservation raises an exception whose message
  carries the listing's stderr, and \<open>__aenter__\<close> raises it having run the listing command
  only: no image is built and no container is started.
\<close>

theorem make_unique_container_name_lowest_unused:
  "(returncode (exits_with rt tr docker_ps_args) = 0 \<longrightarrow>
      (\<exists>i. make_unique_container_name rt tr =
              (Inr (candidate_name i), tr @ [Spawn docker_ps_args, Communicate docker_ps_args])
          \<and> candidate_name i \<notin> set (splitlines (stdout (exits_with rt tr docker_ps_args)))
          \<and> (\<forall>j<i. candidate_name j \<in> set (splitlines (stdout (exits_with rt tr docker_ps_args))))))
 \<and> (returncode (exits_with rt tr docker_ps_args) \<noteq> 0 \<longrightarrow>
      make_unique_container_name rt tr =
        (Inl (Exception (''Error getting existing containers: ''
                @ stderr (exits_with rt tr docker_ps_args))),
         tr @ [Spawn docker_ps_args, Communicate docker_ps_args])
      \<and> aenter rt self tr =
        (Inl (Exception (''Error getting existing containers: ''
                @ stderr (exits_with rt tr docker_ps_args))),
         self, tr @ [Spawn docker_ps_args, Communicate docker_ps_args]))"
proof (intro conjI impI)
  assume ok: "returncode (exits_with rt tr docker_ps_args) = 0"
  let ?existing = "splitlines (stdout (exits_with rt tr docker_ps_args))"
  from first_unused_lowest[of 0 ?existing] obtain k where
    k: "first_unused ?existing 0 = candidate_name k" "candidate_name k \<notin> set ?existing"
       "\<forall>j. 0 \<le> j \<and> j < k \<longrightarrow> candidate_name j \<in> set ?existing"
    by blast
  have "make_unique_container_name rt tr =
          (Inr (candidate_name k), tr @ [Spawn docker_ps_args, Communicate docker_ps_args])"
    using ok k(1) by (simp add: make_unique_container_name_def subprocess_communicate_def)
  with k(2,3) show "\<exists>i. make_unique_container_name rt tr =
              (Inr (candidate_name i), tr @ [Spawn docker_ps_args, Communicate docker_ps_args])
          \<and> candidate_name i \<notin> set ?existing
          \<and> (\<forall>j<i. candidate_name j \<in> set ?existing)"
    by (intro exI[of _ k]) simp
next
  assume bad: "returncode (exits_with rt tr docker_ps_args) \<noteq> 0"
  then show m: "make_unique_container_name rt tr =
        (Inl (Exception (''Error getting existing containers: ''
                @ stderr (exits_with rt tr docker_ps_args))),
         tr @ [Spawn docker_ps_args, Communicate docker_ps_args])"
    by (simp add: make_unique_container_name_def subprocess_communicate_def)
  show "aenter rt self tr =
        (Inl (Exception (''Error getting existing containers: ''
                @ stderr (exits_with rt tr docker_ps_args))),
         self, tr @ [Spawn docker_ps_args, Communicate docker_ps_args])"
    unfolding aenter_def m by simp
qed

lemma candidate_name_0: "candidate_name 0 = ''bash-sandbox-instance-0''"
  by code_simp

lemma candidate_name_1: "candidate_name (Suc 0) = ''bash-sandbox-instance-1''"
  by code_simp

lemma listing_lines:
  "splitlines (stdout (exits_with runtime_listing [] docker_ps_args)) =
     [''bash-sandbox-instance-0'', ''web'', ''bash-sandbox-instance-2'']"
  by (simp add: runtime_listing_def splitlines_def is_line_boundary_def)

theorem make_unique_container_name_lowest_unused_witness:
  "returncode (exits_with runtime_listing [] docker_ps_args) = 0
   \<and> make_unique_container_name runtime_listing [] =
       (Inr ''bash-sandbox-instance-1'', [Spawn docker_ps_args, Communicate docker_ps_args])
   \<and> returncode (exits_with runtime_down [] docker_ps_args) \<noteq> 0
   \<and> aenter runtime_down sandbox0 [] =
       (Inl (Exception ''Error getting existing containers: Cannot connect to the Docker daemon''),
        sandbox0, [Spawn docker_ps_args, Communicate docker_ps_args])"
proof -
  have ok: "returncode (exits_with runtime_listing [] docker_ps_args) = 0"
    by (simp add: runtime_listing_def)
  have bad: "returncode (exits_with runtime_down [] docker_ps_args) \<noteq> 0"
    by (simp add: runtime_down_def)
  have err: "stderr (exits_with runtime_down [] docker_ps_args) = ''Cannot connect to the Docker daemon''"
    by (simp add: runtime_down_def)
  note thm1 = make_unique_container_name_lowest_unused[of runtime_listing "[]" sandbox0]
  note thm2 = make_unique_container_name_lowest_unused[of runtime_down "[]" sandbox0]
  from thm1 ok obtain i where
    i: "make_unique_container_name runtime_listing [] =
          (Inr (candidate_name i), [] @ [Spawn docker_ps_args, Communicate docker_ps_args])"
       "candidate_name i \<notin> set (splitlines (stdout (exits_with runtime_listing [] docker_ps_args)))"
       "\<forall>j<i. candidate_name j \<in> set (splitlines (stdout (exits_with runtime_listing [] docker_ps_args)))"
    by blast
  have "i = Suc 0"
  proof (rule ccontr)
    assume ne: "i \<noteq> Suc 0"
    show False
    proof (cases "i = 0")
      case True
      with i(2) show False by (simp add: listing_lines candidate_name_0)
    next
      case False
      with ne have "Suc 0 < i" by simp
      with i(3) have "candidate_name (Suc 0) \<in> set (splitlines (stdout (exits_with runtime_listing [] docker_ps_args)))"
        by blast
      then show False by (simp add: listing_lines candidate_name_1)
    qed
  qed
  with i(1) have first: "make_unique_container_name runtime_listing [] =
       (Inr ''bash-sandbox-instance-1'', [Spawn docker_ps_args, Communicate docker_ps_args])"
    by (simp add: candidate_name_1)
  from thm2 bad have "aenter runtime_down sandbox0 [] =
        (Inl (Exception (''Error getting existing containers: ''
                @ stderr (exits_with runtime_down [] docker_ps_args))),
         sandbox0, [] @ [Spawn docker_ps_args, Communicate docker_ps_args])"
    by blast
  then have second: "aenter runtime_down sandbox0 [] =
       (Inl (Exception ''Error getting existing containers: Cannot connect to the Docker daemon''),
        sandbox0, [Spawn docker_ps_args, Communicate docker_ps_args])"
    unfolding err by simp
  from ok first bad second show ?thesis by blast
qed

section \<open>Sandboxes opened concurrently\<close>









section \<open>Tool.call\<close>

lemma differ_in_length: "length xs \<noteq> length ys \<Longrightarrow> xs \<noteq> ys"
  by auto

text \<open>
  What holds of the claim C4: if \<open>json.loads\<close> raises \<open>JSONDecodeError\<close>, or the payload
  parses to something that is not an object, or lacks a required parameter, or has a name
  that is neither required nor optional, then \<open>call\<close> returns \<open>None\<close> and leaves the world
  as it was; and the log of a recording tool stays as it was: the action is not invoked.
\<close>

lemma call_rejects_malformed_payload:
  assumes "loads js json_arguments = Inl JSONDecodeError
         \<or> (\<exists>v. loads js json_arguments = Inr v \<and> (\<forall>arguments. v \<noteq> PDict arguments))
         \<or> (\<exists>arguments. loads js json_arguments = Inr (PDict arguments)
              \<and> ((\<exists>p. p \<in> set (required_arguments self) \<and> p \<notin> set (map fst arguments))
                 \<or> (\<exists>k. k \<in> set (map fst arguments)
                        \<and> k \<notin> set (required_arguments self) \<union> set (optional_arguments self))))"
  shows "call js self json_arguments w = (Inr None, w)
       \<and> call js (recording self) json_arguments (w, log) = (Inr None, (w, log))"
proof -
  have same_signature:
    "required_arguments (recording self) = required_arguments self"
    "optional_arguments (recording self) = optional_arguments self"
    by (simp_all add: required_arguments_def optional_arguments_def recording_def)
  from assms consider
      (unparsable) "loads js json_arguments = Inl JSONDecodeError"
    | (not_object) v where "loads js json_arguments = Inr v" "\<forall>arguments. v \<noteq> PDict arguments"
    | (missing) arguments p where "loads js json_arguments = Inr (PDict arguments)"
        "p \<in> set (required_arguments self)" "p \<notin> set (map fst arguments)"
    | (unknown) arguments k where "loads js json_arguments = Inr (PDict arguments)"
        "k \<in> set (map fst arguments)"
        "k \<notin> set (required_arguments self) \<union> set (optional_arguments self)"
    by (elim disjE exE conjE) blast+
  then show ?thesis
  proof cases
    case unparsable
    then show ?thesis by (simp add: call_def)
  next
    case not_object
    then show ?thesis by (cases v) (simp_all add: call_def)
  next
    case missing
    then have "\<not> set (required_arguments self) \<subseteq> set (map fst arguments)" by blast
    with missing(1) show ?thesis by (simp add: call_def same_signature)
  next
    case unknown
    then have "\<not> set (map fst arguments)
                  \<subseteq> set (required_arguments self) \<union> set (optional_arguments self)" by blast
    with unknown(1) show ?thesis by (simp add: call_def same_signature)
  qed
qed

lemma call_rejects_malformed_payload_examples:
  "loads json_examples ''{'' = Inl JSONDecodeError
   \<and> call json_examples bash_tool ''{'' [] = (Inr None, [])
   \<and> call json_examples (recording bash_tool) ''{'' ([], []) = (Inr None, ([], []))
   \<and> loads json_examples ''[]'' = Inr (PList [])
   \<and> call json_examples (recording bash_tool) ''[]'' ([], []) = (Inr None, ([], []))
   \<and> loads json_examples ''{}'' = Inr (PDict [])
   \<and> ''command'' \<in> set (required_arguments bash_tool)
   \<and> call json_examples (recording bash_tool) ''{}'' ([], []) = (Inr None, ([], []))
   \<and> loads json_examples echo_payload = Inr (PDict [(''command'', PStr ''echo hi'')])
   \<and> ''command'' \<notin> set (required_arguments (FinishTool :: (event list) Tool))
                          \<union> set (optional_arguments (FinishTool :: (event list) Tool))
   \<and> call json_examples (recording (FinishTool :: (event list) Tool)) echo_payload ([], [])
       = (Inr None, ([], []))"
proof -
  have not_deep: "''{'' \<noteq> deep_brackets"
    by (rule differ_in_length) (simp add: deep_brackets_def)
  have unparsable: "loads json_examples ''{'' = Inl JSONDecodeError"
    by (simp add: json_examples_def echo_payload_def not_deep)
  have not_object: "loads json_examples ''[]'' = Inr (PList [])"
    by (simp add: json_examples_def echo_payload_def not_deep)
  have empty_object: "loads json_examples ''{}'' = Inr (PDict [])"
    by (simp add: json_examples_def echo_payload_def not_deep)
  have echo: "loads json_examples echo_payload = Inr (PDict [(''command'', PStr ''echo hi'')])"
    by (simp add: json_examples_def)
  have required: "''command'' \<in> set (required_arguments bash_tool)"
    by (simp add: required_arguments_def bash_tool_def BashTool_as_Tool_def)
  have unknown: "''command'' \<notin> set (required_arguments (FinishTool :: (event list) Tool))
                          \<union> set (optional_arguments (FinishTool :: (event list) Tool))"
    by (simp add: required_arguments_def optional_arguments_def FinishTool_def)
  note claim = call_rejects_malformed_payload
  have 1: "call json_examples bash_tool ''{'' [] = (Inr None, [])
         \<and> call json_examples (recording bash_tool) ''{'' ([], []) = (Inr None, ([], []))"
    using unparsable by (intro claim) simp
  have 2: "call json_examples (recording bash_tool) ''[]'' ([], []) = (Inr None, ([], []))"
    using not_object by (intro claim[THEN conjunct2]) simp
  have 3: "call json_examples (recording bash_tool) ''{}'' ([], []) = (Inr None, ([], []))"
    using empty_object required by (intro claim[THEN conjunct2]) auto
  have 4: "call json_examples (recording (FinishTool :: (event list) Tool)) echo_payload ([], [])
       = (Inr None, ([], []))"
    using echo unknown by (intro claim[THEN conjunct2]) auto
  from unparsable not_object empty_object echo required unknown 1 2 3 4 show ?thesis
    by blast
qed

lemma deep_brackets_not_parsed:
  "loads json_examples deep_brackets = Inl RecursionError"
proof -
  have 1: "deep_brackets \<noteq> echo_payload"
    by (rule differ_in_length) (simp add: echo_payload_def quoted_def deep_brackets_def)
  have 2: "deep_brackets \<noteq> ''{}''" "deep_brackets \<noteq> ''[]''"
    by (rule differ_in_length, simp add: deep_brackets_def)+
  show ?thesis
    using 1 2 by (simp add: json_examples_def)
qed

text \<open>
  C4 fails on the code. A thousand opening brackets do not parse as a structured object:
  \<open>json.loads\<close> raises \<open>RecursionError\<close>, which \<open>except json.JSONDecodeError\<close> does not catch,
  so \<open>call\<close> raises instead of returning \<open>None\<close>. The action is not invoked: the log of
  the recording tool stays empty.
\<close>

theorem call_raises_on_deep_nesting:
  "loads json_examples deep_brackets = Inl RecursionError
   \<and> call json_examples bash_tool deep_brackets [] = (Inl RecursionError, [])
   \<and> call json_examples (recording bash_tool) deep_brackets ([], []) = (Inl RecursionError, ([], []))"
  by (simp add: call_def deep_brackets_not_parsed)

text \<open>
  C5. If the payload parses to an object that has every required parameter and no name
  outside the required and optional ones, then \<open>call\<close> returns what the action returns on
  exactly the items of that object; and the log of a recording tool grows by exactly one
  entry, those items: the action is invoked once.
\<close>

theorem call_invokes_action_once:
  assumes "loads js json_arguments = Inr (PDict arguments)"
      and "set (required_arguments self) \<subseteq> set (map fst arguments)"
      and "set (map fst arguments) \<subseteq> set (required_arguments self) \<union> set (optional_arguments self)"
  shows "call js self json_arguments w = private_call self arguments w
       \<and> call js (recording self) json_arguments (w, log)
           = (fst (private_call self arguments w),
              (snd (private_call self arguments w), log @ [arguments]))"
proof -
  have same_signature:
    "required_arguments (recording self) = required_arguments self"
    "optional_arguments (recording self) = optional_arguments self"
    by (simp_all add: required_arguments_def optional_arguments_def recording_def)
  have "call js self json_arguments w = private_call self arguments w"
    using assms by (simp add: call_def)
  moreover have "call js (recording self) json_arguments (w, log)
      = private_call (recording self) arguments (w, log)"
    using assms by (simp add: call_def same_signature)
  moreover have "private_call (recording self) arguments (w, log)
      = (fst (private_call self arguments w),
         (snd (private_call self arguments w), log @ [arguments]))"
    by (simp add: recording_def)
  ultimately show ?thesis by simp
qed

lemma bash_tool_echo:
  "private_call bash_tool [(''command'', PStr ''echo hi'')] [] =
     (Inr (Some echo_result), [Spawn echo_args, Communicate echo_args])"
  by (simp add: bash_tool_def BashTool_as_Tool_def BashTool_call_def run_command_def
      docker_exec_args_def sandbox0_def runtime_echo_def BashTool_truncate_def echo_result_def
      echo_args_def Let_def)

theorem call_invokes_action_once_witness:
  "loads json_examples echo_payload = Inr (PDict [(''command'', PStr ''echo hi'')])
   \<and> set (required_arguments bash_tool) = {''command''}
   \<and> set (optional_arguments bash_tool) = {}
   \<and> call json_examples bash_tool echo_payload [] =
       (Inr (Some echo_result), [Spawn echo_args, Communicate echo_args])
   \<and> call json_examples (recording bash_tool) echo_payload ([], []) =
       (Inr (Some echo_result),
        ([Spawn echo_args, Communicate echo_args], [[(''command'', PStr ''echo hi'')]]))"
proof -
  have echo: "loads json_examples echo_payload = Inr (PDict [(''command'', PStr ''echo hi'')])"
    by (simp add: json_examples_def)
  have required: "set (required_arguments bash_tool) = {''command''}"
    by (simp add: required_arguments_def bash_tool_def BashTool_as_Tool_def)
  have optional: "set (optional_arguments bash_tool) = {}"
    by (simp add: optional_arguments_def bash_tool_def BashTool_as_Tool_def)
  have "call json_examples bash_tool echo_payload [] =
          private_call bash_tool [(''command'', PStr ''echo hi'')] []
       \<and> call json_examples (recording bash_tool) echo_payload ([], [])
           = (fst (private_call bash_tool [(''command'', PStr ''echo hi'')] []),
              (snd (private_call bash_tool [(''command'', PStr ''echo hi'')] []),
               [] @ [[(''command'', PStr ''echo hi'')]]))"
    using echo by (rule call_invokes_action_once) (simp_all add: required optional)
  with echo required optional show ?thesis
    by (simp add: bash_tool_echo)
qed

section \<open>Agent.run\<close>

lemma tools_agent_finish_first: "tools agent_finish_first = [bash_tool, FinishTool]"
  by (simp add: agent_finish_first_def post_init_def bash_tool_def BashTool_as_Tool_def)

text \<open>
  C1 fails on the code. The model answers with two tool calls in one turn, \<open>finish\<close> first and
  \<open>run_bash_command\<close> second. The loop over the tool calls is left at \<open>finish\<close>: the run
  ends with the conversation holding the seed and the response only, the bash command was
  never run (the trace of the runtime is empty), and \<open>call_2\<close> has no tool-result message.
\<close>

theorem run_stops_at_finish_before_later_tool_calls:
  "run json_examples agent_finish_first ''task'' [] =
     (Inr (),
      [Dict User ''task'' None,
       Dict System default_system_message None,
       Response finish_then_bash],
      [])"
proof -
  have turns_left: "nat (max_turns agent_finish_first) = Suc 14"
    by (simp add: agent_finish_first_def post_init_def)
  have seed: "seed_conversation agent_finish_first ''task'' =
      [Dict User ''task'' None, Dict System default_system_message None]"
    by (simp add: seed_conversation_def agent_finish_first_def post_init_def Let_def)
  have reply: "chatbot_response agent_finish_first conversation = finish_then_bash" for conversation
    by (simp add: agent_finish_first_def post_init_def)
  have calls: "tool_calls finish_then_bash = Some
        [\<lparr>tool_call_id = ''call_1'', tool_call_name = ''finish'', tool_call_arguments = ''{}''\<rparr>,
         \<lparr>tool_call_id = ''call_2'', tool_call_name = ''run_bash_command'',
          tool_call_arguments = echo_payload\<rparr>]"
    by (simp add: finish_then_bash_def)
  have inner: "process_tool_calls json_examples [bash_tool, FinishTool]
        [\<lparr>tool_call_id = ''call_1'', tool_call_name = ''finish'', tool_call_arguments = ''{}''\<rparr>,
         \<lparr>tool_call_id = ''call_2'', tool_call_name = ''run_bash_command'',
          tool_call_arguments = echo_payload\<rparr>] conversation w = (Inr True, conversation, w)"
    for conversation and w :: "event list"
    by (simp add: bash_tool_def BashTool_as_Tool_def FinishTool_def)
  show ?thesis
    unfolding run_def turns_left seed
    by (subst turns.simps)
      (simp add: reply calls tools_agent_finish_first inner del: process_tool_calls.simps)
qed

lemma turns_plain_text:
  assumes plain: "\<forall>conversation. tool_calls (chatbot_response self conversation) = None
                     \<and> content (chatbot_response self conversation) \<noteq> None"
  shows "\<exists>conversation'. turns js self n conversation w = (Inr (), conversation', w)
           \<and> length conversation' = length conversation + 3 * n"
proof (induction n arbitrary: conversation)
  case 0
  show ?case by simp
next
  case (Suc n)
  let ?response = "chatbot_response self conversation"
  from plain obtain c where c: "tool_calls ?response = None" "content ?response = Some c"
    by auto
  let ?next = "conversation @ [Response ?response] @
      [Dict Assistant c None,
       Dict User ''You should call tools instead of giving chat responses.'' None]"
  from Suc.IH[of ?next] obtain conversation' where
    "turns js self n ?next w = (Inr (), conversation', w)"
    "length conversation' = length ?next + 3 * n"
    by blast
  then show ?case using c by (simp add: Let_def)
qed

text \<open>
  C2 (as amended). If on every turn the model replies with plain text and no tool calls, and \<open>max_turns\<close>
  is not negative, then \<open>run\<close> returns without an exception, the world untouched, and the
  final conversation has \<open>s + 3 * max_turns\<close> messages, where the seed has \<open>s = 1\<close> message
  when \<open>system_message\<close> is \<open>None\<close> and \<open>s = 2\<close> otherwise.
\<close>

theorem run_plain_text_replies:
  assumes "\<forall>conversation. tool_calls (chatbot_response self conversation) = None
                     \<and> content (chatbot_response self conversation) \<noteq> None"
      and "0 \<le> max_turns self"
  shows "\<exists>conversation. run js self prompt w = (Inr (), conversation, w)
           \<and> int (length conversation) =
               (if system_message self = None then 1 else 2) + 3 * max_turns self"
proof -
  from turns_plain_text[OF assms(1), of js "nat (max_turns self)" "seed_conversation self prompt" w]
  obtain conversation where
    c: "run js self prompt w = (Inr (), conversation, w)"
       "length conversation = length (seed_conversation self prompt) + 3 * nat (max_turns self)"
    unfolding run_def by blast
  have "int (length (seed_conversation self prompt)) = (if system_message self = None then 1 else 2)"
    by (simp add: seed_conversation_def Let_def split: option.split)
  with c(2) assms(2) have "int (length conversation) =
               (if system_message self = None then 1 else 2) + 3 * max_turns self"
    by simp
  with c(1) show ?thesis by blast
qed

lemma agent_chatty_plain:
  "\<forall>conversation. tool_calls (chatbot_response agent_chatty conversation) = None
       \<and> content (chatbot_response agent_chatty conversation) \<noteq> None"
  by (simp add: agent_chatty_def post_init_def plain_reply_def)

theorem run_plain_text_replies_witness:
  "tool_calls (chatbot_response agent_chatty []) = None
   \<and> content (chatbot_response agent_chatty []) = Some ''I am done.''
   \<and> 0 \<le> max_turns agent_chatty
   \<and> fst (run json_examples agent_chatty ''task'' []) = Inr ()
   \<and> int (length (fst (snd (run json_examples agent_chatty ''task'' [])))) = 2 + 3 * 15"
proof -
  have turns_given: "max_turns agent_chatty = 15"
    by (simp add: agent_chatty_def post_init_def)
  have with_system: "system_message agent_chatty \<noteq> None"
    by (simp add: agent_chatty_def post_init_def)
  have nonneg: "0 \<le> max_turns agent_chatty"
    using turns_given by simp
  from run_plain_text_replies[OF agent_chatty_plain nonneg, of json_examples "''task''" "[]"]
  obtain conversation where
    "run json_examples agent_chatty ''task'' [] = (Inr (), conversation, [])"
    "int (length conversation) = 2 + 3 * 15"
    using with_system turns_given by auto
  then show ?thesis
    using nonneg by (simp add: agent_chatty_def post_init_def plain_reply_def)
qed

text \<open>
  C2, as stated, fails for an agent with a system message. With the default system message and 15 turns of plain text the conversation has 47
  messages, not \<open>1 + 3 * 15 = 46\<close>.
\<close>

theorem run_plain_text_length_counterexample:
  "tool_calls (chatbot_response agent_chatty []) = None
   \<and> content (chatbot_response agent_chatty []) = Some ''I am done.''
   \<and> max_turns agent_chatty = 15
   \<and> int (length (fst (snd (run json_examples agent_chatty ''task'' [])))) = 47
   \<and> int (length (fst (snd (run json_examples agent_chatty ''task'' []))))
       \<noteq> 1 + 3 * max_turns agent_chatty"
proof -
  have turns_given: "max_turns agent_chatty = 15"
    by (simp add: agent_chatty_def post_init_def)
  have seed: "length (seed_conversation agent_chatty ''task'') = 2"
    by (simp add: seed_conversation_def agent_chatty_def post_init_def Let_def)
  from turns_plain_text[OF agent_chatty_plain, of json_examples "nat (max_turns agent_chatty)"
      "seed_conversation agent_chatty ''task''" "[]"]
  obtain conversation where
    "run json_examples agent_chatty ''task'' [] = (Inr (), conversation, [])"
    "length conversation = 2 + 3 * nat (max_turns agent_chatty)"
    unfolding run_def seed by blast
  then have "int (length (fst (snd (run json_examples agent_chatty ''task'' [])))) = 47"
    using turns_given by simp
  then show ?thesis
    using turns_given by (simp add: agent_chatty_def post_init_def plain_reply_def)
qed

lemma process_tool_calls_extends:
  "\<exists>rest. fst (snd (process_tool_calls js ts tcs conversation w)) = conversation @ rest"
proof (induction tcs arbitrary: conversation w)
  case Nil
  show ?case by simp
next
  case (Cons tc tcs)
  show ?case
  proof (cases "find (\<lambda>t. function_name t = tool_call_name tc) ts")
    case None
    then show ?thesis by simp
  next
    case (Some t)
    show ?thesis
    proof (cases "isinstance_FinishTool t")
      case True
      with Some show ?thesis by simp
    next
      case False
      obtain r w' where r: "call js t (tool_call_arguments tc) w = (r, w')"
        by (cases "call js t (tool_call_arguments tc) w")
      show ?thesis
      proof (cases r)
        case (Inl e)
        with Some False r show ?thesis by simp
      next
        case (Inr returned)
        let ?result = "Dict ToolRole
            (dumps js (case returned of None \<Rightarrow> PNone | Some s \<Rightarrow> PStr s))
            (Some (tool_call_id tc))"
        from Cons.IH[of "conversation @ [?result]" w'] obtain rest where
          "fst (snd (process_tool_calls js ts tcs (conversation @ [?result]) w'))
             = (conversation @ [?result]) @ rest" by blast
        with Some False r Inr show ?thesis by simp
      qed
    qed
  qed
qed

lemma turns_extends:
  "\<exists>rest. fst (snd (turns js self n conversation w)) = conversation @ rest"
proof (induction n arbitrary: conversation w)
  case 0
  show ?case by simp
next
  case (Suc n)
  let ?response = "chatbot_response self conversation"
  let ?conversation1 = "conversation @ [Response ?response]"
  show ?case
  proof (cases "tool_calls ?response")
    case None
    show ?thesis
    proof (cases "content ?response")
      case no_content: None
      with None show ?thesis by (simp add: Let_def)
    next
      case (Some c)
      let ?next = "?conversation1 @
        [Dict Assistant c None,
         Dict User ''You should call tools instead of giving chat responses.'' None]"
      from Suc.IH[of ?next w] obtain rest where
        "fst (snd (turns js self n ?next w)) = ?next @ rest" by blast
      with None Some show ?thesis by (simp add: Let_def)
    qed
  next
    case (Some tcs)
    obtain r conversation2 w' where
      p: "process_tool_calls js (tools self) tcs ?conversation1 w = (r, conversation2, w')"
      by (cases "process_tool_calls js (tools self) tcs ?conversation1 w")
    from process_tool_calls_extends[of js "tools self" tcs ?conversation1 w] p
    obtain rest1 where rest1: "conversation2 = ?conversation1 @ rest1" by auto
    show ?thesis
    proof (cases r)
      case (Inl e)
      with Some p rest1 show ?thesis by (simp add: Let_def)
    next
      case (Inr finished)
      show ?thesis
      proof (cases finished)
        case True
        with Some p rest1 Inr show ?thesis by (simp add: Let_def)
      next
        case False
        from Suc.IH[of conversation2 w'] obtain rest2 where
          "fst (snd (turns js self n conversation2 w')) = conversation2 @ rest2" by blast
        with Some p rest1 Inr False show ?thesis by (simp add: Let_def)
      qed
    qed
  qed
qed

text \<open>
  C10. When \<open>system_message\<close> is not \<open>None\<close>, the seeded conversation is the user message with
  the prompt followed by the system message, for every prompt; and the conversation at the
  end of the run still starts with these two messages in this order.
\<close>

theorem run_seeds_user_then_system:
  assumes "system_message self = Some s"
  shows "seed_conversation self prompt = [Dict User prompt None, Dict System s None]
       \<and> (\<exists>rest. fst (snd (run js self prompt w))
                   = [Dict User prompt None, Dict System s None] @ rest)"
proof -
  have seed: "seed_conversation self prompt = [Dict User prompt None, Dict System s None]"
    using assms by (simp add: seed_conversation_def Let_def)
  from turns_extends[of js self "nat (max_turns self)" "seed_conversation self prompt" w]
  have "\<exists>rest. fst (snd (run js self prompt w)) = seed_conversation self prompt @ rest"
    by (simp add: run_def)
  with seed show ?thesis by simp
qed

theorem run_seeds_user_then_system_witness:
  "system_message agent_finish_first = Some default_system_message
   \<and> seed_conversation agent_finish_first ''task'' =
       [Dict User ''task'' None, Dict System default_system_message None]
   \<and> take 2 (fst (snd (run json_examples agent_finish_first ''task'' []))) =
       [Dict User ''task'' None, Dict System default_system_message None]"
proof -
  have given: "system_message agent_finish_first = Some default_system_message"
    by (simp add: agent_finish_first_def post_init_def)
  from run_seeds_user_then_system[OF given, of "''task''" json_examples "[]"] given
  show ?thesis by auto
qed

section \<open>evaluate_agent_multiple_tasks\<close>

lemma step_keeps_permits:
  assumes "step s s'"
  shows "semaphore s' + int (running s') = semaphore s + int (running s)"
  using assms by cases auto

lemma step_keeps_semaphore_nonneg:
  assumes "step s s'" and "0 \<le> semaphore s"
  shows "0 \<le> semaphore s'"
  using assms by cases auto

lemma reachable_permits:
  assumes "step\<^sup>*\<^sup>* (evaluate_agent_multiple_tasks tasks given) s"
  shows "semaphore s + int (running s) = max_run_in_parallel given
       \<and> (0 \<le> max_run_in_parallel given \<longrightarrow> 0 \<le> semaphore s)"
  using assms
proof (induction rule: rtranclp_induct)
  case base
  show ?case by (simp add: evaluate_agent_multiple_tasks_def)
next
  case (step s s')
  then show ?case
    using step_keeps_permits[of s s'] step_keeps_semaphore_nonneg[of s s'] by simp
qed

text \<open>
  C9 (as amended). With no explicit cap argument the semaphore of \<open>evaluate_agent_multiple_tasks\<close> starts
  at 64, so at most 64 evaluations run at any moment; \<open>main\<close> passes 256 explicitly, and
  started from \<open>main\<close> at most 256 run at any moment.
\<close>

theorem default_bound_is_64:
  "max_run_in_parallel None = 64
 \<and> max_run_in_parallel main_max_run_in_parallel = 256
 \<and> (step\<^sup>*\<^sup>* (evaluate_agent_multiple_tasks tasks None) s \<longrightarrow> int (running s) \<le> 64)
 \<and> (step\<^sup>*\<^sup>* (evaluate_agent_multiple_tasks tasks main_max_run_in_parallel) s' \<longrightarrow>
       int (running s') \<le> 256)"
proof (intro conjI impI)
  show d: "max_run_in_parallel None = 64"
    by (simp add: max_run_in_parallel_def)
  show m: "max_run_in_parallel main_max_run_in_parallel = 256"
    by (simp add: max_run_in_parallel_def main_max_run_in_parallel_def)
  show "int (running s) \<le> 64"
    if "step\<^sup>*\<^sup>* (evaluate_agent_multiple_tasks tasks None) s"
    using reachable_permits[OF that] d by simp
  show "int (running s') \<le> 256"
    if "step\<^sup>*\<^sup>* (evaluate_agent_multiple_tasks tasks main_max_run_in_parallel) s'"
    using reachable_permits[OF that] m by simp
qed

lemma one_acquire:
  "step (evaluate_agent_multiple_tasks [''task a'', ''task b''] None) after_one_acquire"
proof -
  let ?s = "evaluate_agent_multiple_tasks [''task a'', ''task b''] None"
  have "step ?s (?s\<lparr>semaphore := semaphore ?s - 1, pending := pending ?s - 1,
                     running := running ?s + 1\<rparr>)"
    by (rule step.acquire)
       (simp_all add: evaluate_agent_multiple_tasks_def max_run_in_parallel_def)
  moreover have "?s\<lparr>semaphore := semaphore ?s - 1, pending := pending ?s - 1,
                     running := running ?s + 1\<rparr> = after_one_acquire"
    by (simp add: evaluate_agent_multiple_tasks_def max_run_in_parallel_def after_one_acquire_def)
  ultimately show ?thesis by simp
qed

theorem default_bound_is_64_witness:
  "step\<^sup>*\<^sup>* (evaluate_agent_multiple_tasks [''task a'', ''task b''] None) after_one_acquire
   \<and> running after_one_acquire = 1
   \<and> int (running after_one_acquire) \<le> 64
   \<and> step\<^sup>*\<^sup>* (evaluate_agent_multiple_tasks [''task a'', ''task b''] main_max_run_in_parallel)
        (evaluate_agent_multiple_tasks [''task a'', ''task b''] main_max_run_in_parallel)
   \<and> int (running (evaluate_agent_multiple_tasks [''task a'', ''task b''] main_max_run_in_parallel))
        \<le> 256"
proof -
  have reach: "step\<^sup>*\<^sup>* (evaluate_agent_multiple_tasks [''task a'', ''task b''] None) after_one_acquire"
    using one_acquire by (rule r_into_rtranclp)
  have stay: "step\<^sup>*\<^sup>* (evaluate_agent_multiple_tasks [''task a'', ''task b''] main_max_run_in_parallel)
        (evaluate_agent_multiple_tasks [''task a'', ''task b''] main_max_run_in_parallel)"
    by (rule rtranclp.rtrancl_refl)
  note claim = default_bound_is_64[of "[''task a'', ''task b'']" after_one_acquire
      "evaluate_agent_multiple_tasks [''task a'', ''task b''] main_max_run_in_parallel"]
  from claim reach have "int (running after_one_acquire) \<le> 64" by blast
  moreover from claim stay have
    "int (running (evaluate_agent_multiple_tasks [''task a'', ''task b''] main_max_run_in_parallel))
        \<le> 256" by blast
  moreover have "running after_one_acquire = 1" by (simp add: after_one_acquire_def)
  ultimately show ?thesis using reach stay by blast
qed

text \<open>
  C9, as stated, fails. The default of \<open>max_run_in_parallel\<close> is 64, not 256.
\<close>

theorem default_bound_256_counterexample:
  "max_run_in_parallel None \<noteq> 256
   \<and> semaphore (evaluate_agent_multiple_tasks [''task a'', ''task b''] None) = 64"
  by (simp add: max_run_in_parallel_def evaluate_agent_multiple_tasks_def)

end
